theory Spec2Isabelle
  imports Main "HOL-Library.Word"
begin

unbundle bit_operations_syntax

section \<open>Machine types and library constants\<close>

text \<open>
  \<^verbatim>\<open>short\<close> is a 16-bit word: the readiness masks are combined bitwise. A \<^verbatim>\<open>short\<close>
  operand of \<^verbatim>\<open>&\<close> or \<^verbatim>\<open>|\<close> is promoted to \<^verbatim>\<open>int\<close> (32 bits, sign-extending) before
  the operation, and an \<^verbatim>\<open>int\<close> returned as \<^verbatim>\<open>short\<close> keeps its low 16 bits.
  \<^verbatim>\<open>off_t\<close>, \<^verbatim>\<open>ssize_t\<close> and the \<^verbatim>\<open>int\<close> status codes are only passed along or
  compared, never computed with near their limits, so they are integers.
\<close>

type_synonym short = "16 word"
type_synonym cint = "32 word"
type_synonym off_t = int
type_synonym ssize_t = int

definition promote :: "short \<Rightarrow> cint" where
  "promote x = scast x"

definition narrow :: "cint \<Rightarrow> short" where
  "narrow x = ucast x"

definition to_bool :: "cint \<Rightarrow> bool" where
  "to_bool x = (x \<noteq> 0)"

text \<open>The \<^verbatim>\<open>whence\<close> values of \<^verbatim>\<open><cstdio>\<close>.\<close>

definition SEEK_SET :: int where "SEEK_SET = 0"
definition SEEK_CUR :: int where "SEEK_CUR = 1"
definition SEEK_END :: int where "SEEK_END = 2"

text \<open>
  The readiness bits of \<^verbatim>\<open>platform/mbed_poll.h\<close>. That header is not among the sources,
  so the five masks are a parameter of everything that uses them. The specification
  calls the readiness mask a bitset over readable, writable, error, hangup and invalid:
  \<open>poll_consts_ok\<close> says that each mask is one bit, below the sign bit of a
  \<^verbatim>\<open>short\<close>, and that the five differ. \<open>mbed_poll\<close> holds the values of mbed OS.
\<close>

record poll_consts =
  POLLIN :: short
  POLLOUT :: short
  POLLERR :: short
  POLLHUP :: short
  POLLNVAL :: short

definition single_bit :: "short \<Rightarrow> bool" where
  "single_bit x = (x \<in> set (map (\<lambda>i. push_bit i 1) [0..<15]))"

definition poll_consts_ok :: "poll_consts \<Rightarrow> bool" where
  "poll_consts_ok pc =
     (single_bit (POLLIN pc) \<and> single_bit (POLLOUT pc) \<and> single_bit (POLLERR pc) \<and>
      single_bit (POLLHUP pc) \<and> single_bit (POLLNVAL pc) \<and>
      distinct [POLLIN pc, POLLOUT pc, POLLERR pc, POLLHUP pc, POLLNVAL pc])"

definition mbed_poll :: poll_consts where
  "mbed_poll = \<lparr>POLLIN = 0x0001, POLLOUT = 0x0010, POLLERR = 0x1000,
                 POLLHUP = 0x2000, POLLNVAL = 0x4000\<rparr>"

section \<open>Class FileHandle\<close>

text \<open>
  A \<^verbatim>\<open>FileHandle\<close> object is a state \<open>'s\<close> together with the implementations its
  dynamic type gives to the virtual functions. The record holds the four virtual
  functions that the bodies in the header call: \<^verbatim>\<open>seek\<close>, \<^verbatim>\<open>sync\<close>, \<^verbatim>\<open>size\<close>
  and \<^verbatim>\<open>poll\<close>. A member function that may change the object returns the new state
  with its result; \<^verbatim>\<open>poll\<close> is \<^verbatim>\<open>const\<close> and only reads it. A derived class extends
  the record, so the base-class bodies are stated for every extension of it.
\<close>

record 's FileHandle =
  seek :: "off_t \<Rightarrow> int \<Rightarrow> 's \<Rightarrow> off_t \<times> 's"
  sync :: "'s \<Rightarrow> int \<times> 's"
  size_v :: "'s \<Rightarrow> off_t \<times> 's"
  poll :: "short \<Rightarrow> 's \<Rightarrow> short"

text \<open>The bodies that the header gives to the base class.\<close>

definition FileHandle_sync :: "'s \<Rightarrow> int \<times> 's" where
  "FileHandle_sync s = (0, s)"

definition FileHandle_isatty :: "'s \<Rightarrow> int \<times> 's" where
  "FileHandle_isatty s = (0, s)"

definition FileHandle_tell :: "('s, 'm) FileHandle_scheme \<Rightarrow> 's \<Rightarrow> off_t \<times> 's" where
  "FileHandle_tell fh s = seek fh 0 SEEK_CUR s"

definition FileHandle_rewind :: "('s, 'm) FileHandle_scheme \<Rightarrow> 's \<Rightarrow> 's" where
  "FileHandle_rewind fh s = (case seek fh 0 SEEK_SET s of (r, s') \<Rightarrow> s')"

definition FileHandle_lseek ::
  "('s, 'm) FileHandle_scheme \<Rightarrow> off_t \<Rightarrow> int \<Rightarrow> 's \<Rightarrow> off_t \<times> 's" where
  "FileHandle_lseek fh offset whence s = seek fh offset whence s"

definition FileHandle_fsync :: "('s, 'm) FileHandle_scheme \<Rightarrow> 's \<Rightarrow> int \<times> 's" where
  "FileHandle_fsync fh s = sync fh s"

definition FileHandle_flen :: "('s, 'm) FileHandle_scheme \<Rightarrow> 's \<Rightarrow> off_t \<times> 's" where
  "FileHandle_flen fh s = size_v fh s"

definition FileHandle_set_blocking :: "bool \<Rightarrow> 's \<Rightarrow> int \<times> 's" where
  "FileHandle_set_blocking blocking s = (- 1, s)"

definition FileHandle_poll :: "poll_consts \<Rightarrow> short \<Rightarrow> 's \<Rightarrow> short" where
  "FileHandle_poll pc events s = narrow (promote (POLLIN pc) OR promote (POLLOUT pc))"

definition FileHandle_poll_with_wake ::
  "poll_consts \<Rightarrow> short \<Rightarrow> bool \<Rightarrow> 's \<Rightarrow> short \<times> 's" where
  "FileHandle_poll_with_wake pc events wake s = (POLLNVAL pc, s)"

definition writable :: "poll_consts \<Rightarrow> ('s, 'm) FileHandle_scheme \<Rightarrow> 's \<Rightarrow> bool" where
  "writable pc fh s = to_bool (promote (poll fh (POLLOUT pc) s) AND promote (POLLOUT pc))"

definition readable :: "poll_consts \<Rightarrow> ('s, 'm) FileHandle_scheme \<Rightarrow> 's \<Rightarrow> bool" where
  "readable pc fh s = to_bool (promote (poll fh (POLLIN pc) s) AND promote (POLLIN pc))"

definition FileHandle_sigio :: "'cb \<Rightarrow> 's \<Rightarrow> 's" where
  "FileHandle_sigio func s = s"

section \<open>Class FileHandleDeviceWakeHelper\<close>

subsection \<open>The wait primitive and the callback\<close>

text \<open>
  Modelled from the spec: the wait primitive \<^verbatim>\<open>ConditionVariableCS\<close>, whose header is
  not among the sources. The specification asks of it "suspend the calling thread until
  signaled" and "signal from any execution context", a signal "releasing all current
  readers to retry". Its state is the list of the threads suspended on it, empty when
  constructed; \<open>notify_all\<close> returns the threads it releases and leaves none suspended.
\<close>

type_synonym thread = nat

record ConditionVariableCS =
  waiters :: "thread list"

text \<open>Modelled from the spec: the constructor of \<^verbatim>\<open>ConditionVariableCS\<close>; nobody is
  suspended on a new wait primitive.\<close>

definition ConditionVariableCS_init :: ConditionVariableCS where
  "ConditionVariableCS_init = \<lparr>waiters = []\<rparr>"

text \<open>Modelled from the spec: \<^verbatim>\<open>ConditionVariableCS::notify_all\<close>, the signal "releasing
  all current readers to retry".\<close>

definition notify_all :: "ConditionVariableCS \<Rightarrow> thread list \<times> ConditionVariableCS" where
  "notify_all cv = (waiters cv, cv\<lparr>waiters := []\<rparr>)"

subsection \<open>What the header defines\<close>

text \<open>
  The private members \<^verbatim>\<open>_blocking\<close>, \<^verbatim>\<open>_poll_wake_events\<close>, \<^verbatim>\<open>_cv_rx\<close>, \<^verbatim>\<open>_cv_tx\<close> and
  \<^verbatim>\<open>_sigio_cb\<close>.

  Modelled from the spec: the type \<^verbatim>\<open>Callback<void()>\<close> of \<^verbatim>\<open>_sigio_cb\<close>, whose header is not
  among the sources. There is "at most one registered callback per handle" and none
  after construction, so the member is \<open>None\<close> or \<open>Some\<close> callback of a type \<open>'cb\<close>.
\<close>

record 'cb FileHandleDeviceWakeHelper =
  blocking :: bool
  poll_wake_events :: short
  cv_rx :: ConditionVariableCS
  cv_tx :: ConditionVariableCS
  sigio_cb :: "'cb option"

text \<open>The constructor initialises \<^verbatim>\<open>_blocking(true), _poll_wake_events(0)\<close> and
  default-constructs the other three members.\<close>

definition FileHandleDeviceWakeHelper_init :: "'cb FileHandleDeviceWakeHelper" where
  "FileHandleDeviceWakeHelper_init =
     \<lparr>blocking = True, poll_wake_events = 0, cv_rx = ConditionVariableCS_init,
      cv_tx = ConditionVariableCS_init, sigio_cb = None\<rparr>"

definition FileHandleDeviceWakeHelper_set_blocking ::
  "bool \<Rightarrow> 'cb FileHandleDeviceWakeHelper \<Rightarrow> int \<times> 'cb FileHandleDeviceWakeHelper" where
  "FileHandleDeviceWakeHelper_set_blocking b st = (0, st\<lparr>blocking := b\<rparr>)"

definition is_blocking :: "'cb FileHandleDeviceWakeHelper \<Rightarrow> bool" where
  "is_blocking st = blocking st"

text \<open>
  The pure virtual functions that the derived device class supplies: \<^verbatim>\<open>poll\<close> (of the
  base record), \<^verbatim>\<open>is_stream\<close>, \<^verbatim>\<open>read_nonblocking\<close> and \<^verbatim>\<open>write_nonblocking\<close>. They
  act on the device's own state \<open>'d\<close>. \<^verbatim>\<open>read_nonblocking\<close> is given the size and
  returns the bytes it stored in the buffer along with its result;
  \<^verbatim>\<open>write_nonblocking\<close> is given the bytes of the buffer.
\<close>

type_synonym byte = "8 word"

record 'd device = "'d FileHandle" +
  is_stream :: "'d \<Rightarrow> bool"
  read_nonblocking :: "nat \<Rightarrow> 'd \<Rightarrow> ssize_t \<times> byte list \<times> 'd"
  write_nonblocking :: "byte list \<Rightarrow> 'd \<Rightarrow> ssize_t \<times> 'd"

subsection \<open>The member functions whose bodies are not in the header\<close>

text \<open>
  \<^verbatim>\<open>read\<close>, \<^verbatim>\<open>write\<close>, \<^verbatim>\<open>poll_with_wake\<close>, \<^verbatim>\<open>sigio\<close> and \<^verbatim>\<open>wake\<close> are declared in the
  header and defined in a source file that is not among the sources. Each is modelled
  from section 4.2 of the specification, sentence by sentence.

  A call of \<^verbatim>\<open>read\<close> or \<^verbatim>\<open>write\<close> returns, with its result, the list of what it did: the
  calls of the device's primitive with their results, and its suspensions.
\<close>

text \<open>The not-ready sentinel is \<^verbatim>\<open>-EAGAIN\<close>; \<^verbatim>\<open>EAGAIN\<close> is 11 in \<^verbatim>\<open><errno.h>\<close>.\<close>

definition EAGAIN :: int where "EAGAIN = 11"

datatype direction = Rx | Tx

datatype action = Call_read ssize_t | Call_write ssize_t | Wait direction

text \<open>
  Modelled from the spec: suspension on a wait primitive (\<^verbatim>\<open>ConditionVariableCS::wait\<close>,
  not among the sources). While the caller is suspended the device changes under its
  interrupt handler. \<open>wait dir d\<close> is the state of the device when the caller resumes
  after the signal, given that it suspended in state \<open>d\<close>; it is \<open>None\<close> when no signal
  ever comes ("blocking calls block indefinitely until a matching event"). A call that
  never returns has the value \<open>None\<close>.
\<close>

type_synonym 'd waiting = "direction \<Rightarrow> 'd \<Rightarrow> 'd option"

text \<open>
  Modelled from the spec: the body of \<^verbatim>\<open>FileHandleDeviceWakeHelper::read\<close>. "Attempt
  \<^verbatim>\<open>read_nonblocking\<close>; any non-negative result (including 0 for end-of-file) returns
  immediately. On the not-ready sentinel: if non-blocking mode, return the sentinel
  immediately; if blocking mode, suspend on the receive-direction wait primitive until a
  wake reports a receive-relevant bit, then retry from the top." "Hard errors propagate
  verbatim to the caller without adapter-level interpretation or retry." "A requested
  size of zero is a legitimate immediate success (zero bytes, no wait) regardless of
  device readiness."
\<close>

partial_function (option) read_attempts ::
  "('d, 'm) device_scheme \<Rightarrow> 'd waiting \<Rightarrow> bool \<Rightarrow> nat \<Rightarrow> 'd \<Rightarrow> action list \<Rightarrow>
     (ssize_t \<times> byte list \<times> 'd \<times> action list) option" where
  "read_attempts dev wait blk len d tr =
     (case read_nonblocking dev len d of (r, data, d1) \<Rightarrow>
        if 0 \<le> r then Some (r, data, d1, tr @ [Call_read r])
        else if r = - EAGAIN then
          (if \<not> blk then Some (r, data, d1, tr @ [Call_read r])
           else case wait Rx d1 of
                  None \<Rightarrow> None
                | Some d2 \<Rightarrow> read_attempts dev wait blk len d2 (tr @ [Call_read r, Wait Rx]))
        else Some (r, data, d1, tr @ [Call_read r]))"

text \<open>Modelled from the spec: \<^verbatim>\<open>FileHandleDeviceWakeHelper::read\<close> itself, the edge case of
  size zero and then the attempts, in the blocking mode that is set when it is called.\<close>

definition FileHandleDeviceWakeHelper_read ::
  "('d, 'm) device_scheme \<Rightarrow> 'd waiting \<Rightarrow> 'cb FileHandleDeviceWakeHelper \<Rightarrow> nat \<Rightarrow> 'd \<Rightarrow>
     (ssize_t \<times> byte list \<times> 'd \<times> action list) option" where
  "FileHandleDeviceWakeHelper_read dev wait st len d =
     (if len = 0 then Some (0, [], d, [])
      else read_attempts dev wait (blocking st) len d [])"

text \<open>
  Modelled from the spec: the body of \<^verbatim>\<open>FileHandleDeviceWakeHelper::write\<close> for a
  stream. "Repeatedly invoke \<^verbatim>\<open>write_nonblocking\<close>, summing successful byte counts, until
  either the requested size is fully written or a hard error is hit; on the not-ready
  sentinel with at least one byte already written, return the partial count (success);
  on the not-ready sentinel with zero bytes written, either return the sentinel
  immediately (non-blocking mode) or suspend on the transmit-direction wait primitive
  and retry (blocking mode)." The partial count is the outcome in non-blocking mode
  only: "blocking devices must not return until either all requested bytes are accepted
  or a hard error occurs; non-blocking devices may return fewer bytes than requested"
  (section 4.1), and the header has "if blocking, block until all data is written" and
  "if some data can be written, and non-blocking set, write partial". So in blocking
  mode the sentinel suspends the caller whatever was written before, and the loop goes
  on when it resumes. Each call is given the bytes not yet written.
\<close>

partial_function (option) write_stream ::
  "('d, 'm) device_scheme \<Rightarrow> 'd waiting \<Rightarrow> bool \<Rightarrow> byte list \<Rightarrow> nat \<Rightarrow> 'd \<Rightarrow> action list \<Rightarrow>
     (ssize_t \<times> 'd \<times> action list) option" where
  "write_stream dev wait blk buf written d tr =
     (if length buf \<le> written then Some (int written, d, tr)
      else case write_nonblocking dev (drop written buf) d of (n, d1) \<Rightarrow>
        if n = - EAGAIN then
          (if blk then
             (case wait Tx d1 of
                None \<Rightarrow> None
              | Some d2 \<Rightarrow> write_stream dev wait blk buf written d2 (tr @ [Call_write n, Wait Tx]))
           else if 0 < written then Some (int written, d1, tr @ [Call_write n])
           else Some (n, d1, tr @ [Call_write n]))
        else if n < 0 then Some (n, d1, tr @ [Call_write n])
        else write_stream dev wait blk buf (written + nat n) d1 (tr @ [Call_write n]))"

text \<open>
  Modelled from the spec: the body of \<^verbatim>\<open>FileHandleDeviceWakeHelper::write\<close> for
  datagrams. "In blocking mode, if that single attempt is not-ready, suspend on the
  transmit wait primitive once and retry the single attempt after waking; in
  non-blocking mode the sentinel is returned directly. The result of that one attempt,
  count or error, is returned verbatim; no accumulation across calls." The retry is the
  attempt again, so a retry that is not ready suspends again: the sentinel is "escaped
  either by immediate return (non-blocking mode) or by suspension-and-retry (blocking
  mode)" (section 7), a woken caller "may re-suspend" (section 5), and the header, which
  permits spurious calls of \<^verbatim>\<open>wake\<close>, has "for a datagram, blocking write will only one
  successful call to \<^verbatim>\<open>write_nonblocking\<close>, returning its value". A blocking datagram
  write therefore returns the first result that is not the sentinel.
\<close>

partial_function (option) write_datagram ::
  "('d, 'm) device_scheme \<Rightarrow> 'd waiting \<Rightarrow> bool \<Rightarrow> byte list \<Rightarrow> 'd \<Rightarrow> action list \<Rightarrow>
     (ssize_t \<times> 'd \<times> action list) option" where
  "write_datagram dev wait blk buf d tr =
     (case write_nonblocking dev buf d of (n, d1) \<Rightarrow>
        if n = - EAGAIN \<and> blk then
          (case wait Tx d1 of
             None \<Rightarrow> None
           | Some d2 \<Rightarrow> write_datagram dev wait blk buf d2 (tr @ [Call_write n, Wait Tx]))
        else Some (n, d1, tr @ [Call_write n]))"

text \<open>
  Modelled from the spec: \<^verbatim>\<open>FileHandleDeviceWakeHelper::write\<close> chooses between the two by
  \<^verbatim>\<open>is_stream()\<close>, after the edge case "a requested size of zero is a legitimate
  immediate success (zero bytes, no wait) regardless of device readiness".
\<close>

definition FileHandleDeviceWakeHelper_write ::
  "('d, 'm) device_scheme \<Rightarrow> 'd waiting \<Rightarrow> 'cb FileHandleDeviceWakeHelper \<Rightarrow> byte list \<Rightarrow> 'd \<Rightarrow>
     (ssize_t \<times> 'd \<times> action list) option" where
  "FileHandleDeviceWakeHelper_write dev wait st buf d =
     (if length buf = 0 then Some (0, d, [])
      else if is_stream dev d then write_stream dev wait (blocking st) buf 0 d []
      else write_datagram dev wait (blocking st) buf d [])"

text \<open>
  Modelled from the spec: the body of \<^verbatim>\<open>FileHandleDeviceWakeHelper::poll_with_wake\<close>.
  "Compute current mask via \<^verbatim>\<open>poll\<close>; if \<^verbatim>\<open>arm\<close> is set and the mask does not already
  satisfy any requested bit, merge the requested bits into the pending single-shot
  registration." The mask is the result.
\<close>

definition FileHandleDeviceWakeHelper_poll_with_wake ::
  "('d, 'm) device_scheme \<Rightarrow> short \<Rightarrow> bool \<Rightarrow> 'cb FileHandleDeviceWakeHelper \<Rightarrow> 'd \<Rightarrow>
     short \<times> 'cb FileHandleDeviceWakeHelper" where
  "FileHandleDeviceWakeHelper_poll_with_wake dev events wake st d =
     (let revents = poll dev events d in
      if wake \<and> revents AND events = 0
      then (revents, st\<lparr>poll_wake_events := poll_wake_events st OR events\<rparr>)
      else (revents, st))"

text \<open>
  Modelled from the spec: the body of \<^verbatim>\<open>FileHandleDeviceWakeHelper::sigio\<close>. It "stores
  the callback".
\<close>

definition FileHandleDeviceWakeHelper_sigio ::
  "'cb option \<Rightarrow> 'cb FileHandleDeviceWakeHelper \<Rightarrow> 'cb FileHandleDeviceWakeHelper" where
  "FileHandleDeviceWakeHelper_sigio func st = st\<lparr>sigio_cb := func\<rparr>"

text \<open>
  Modelled from the spec: the body of \<^verbatim>\<open>FileHandleDeviceWakeHelper::wake\<close>. What a call
  of \<^verbatim>\<open>wake\<close> does to the outside is the list of its effects: the signals, each with the
  threads it releases, the call of \<^verbatim>\<open>wake_poll\<close>, and the invocation of the callback.
  \<^enum> "If events intersect receive-relevant bits (readable, error, hangup), signal the
    receive wait primitive, releasing all current readers to retry."
  \<^enum> "If events intersect transmit-relevant bits (writable, hangup, error), signal the
    transmit wait primitive."
  \<^enum> "If events intersect the currently armed single-shot registration, invoke the
    registered callback once and clear exactly the satisfied bits from the
    registration."
  The state-change callback is "invoked on any readiness transition reported through
  wake, independent of the single-shot registration" (section 3); the header has
  "whenever an event occurs, the derived class should call the sigio() callback". What
  the registration itself triggers is named in the header's comment on
  \<^verbatim>\<open>poll_with_wake\<close>: "the next time any of the specified events occur, wake_poll() must
  be called". So every call of \<^verbatim>\<open>wake\<close> invokes the callback once, if one is registered,
  and a call whose events hit the registration calls \<^verbatim>\<open>wake_poll\<close> besides.
\<close>

datatype 'cb effect = Signal direction "thread list" | Wake_poll short | Invoke 'cb

text \<open>Modelled from the spec: the "receive-relevant bits (readable, error, hangup)" and the
  "transmit-relevant bits (writable, hangup, error)". The comment on \<^verbatim>\<open>wake\<close> in the header
  reads "Blocking reads will wake on POLLIN or POLLERR. Blocking writes will wake on
  POLLOUT, POLLHUP or POLLERR": it does not name the hangup bit for reads, the
  specification does.\<close>

definition rx_events :: "poll_consts \<Rightarrow> short" where
  "rx_events pc = POLLIN pc OR POLLERR pc OR POLLHUP pc"

definition tx_events :: "poll_consts \<Rightarrow> short" where
  "tx_events pc = POLLOUT pc OR POLLHUP pc OR POLLERR pc"

text \<open>Modelled from the spec: the first step of \<^verbatim>\<open>wake\<close>.\<close>

definition wake_rx ::
  "poll_consts \<Rightarrow> short \<Rightarrow> 'cb FileHandleDeviceWakeHelper \<Rightarrow>
     'cb effect list \<times> 'cb FileHandleDeviceWakeHelper" where
  "wake_rx pc events st =
     (if events AND rx_events pc \<noteq> 0
      then (case notify_all (cv_rx st) of (ts, cv) \<Rightarrow> ([Signal Rx ts], st\<lparr>cv_rx := cv\<rparr>))
      else ([], st))"

text \<open>Modelled from the spec: the second step of \<^verbatim>\<open>wake\<close>.\<close>

definition wake_tx ::
  "poll_consts \<Rightarrow> short \<Rightarrow> 'cb FileHandleDeviceWakeHelper \<Rightarrow>
     'cb effect list \<times> 'cb FileHandleDeviceWakeHelper" where
  "wake_tx pc events st =
     (if events AND tx_events pc \<noteq> 0
      then (case notify_all (cv_tx st) of (ts, cv) \<Rightarrow> ([Signal Tx ts], st\<lparr>cv_tx := cv\<rparr>))
      else ([], st))"

text \<open>Modelled from the spec: the third step of \<^verbatim>\<open>wake\<close>, the single-shot registration. A
  hit calls \<^verbatim>\<open>wake_poll\<close> with the events that have occurred (its parameter in the header)
  and clears the satisfied bits, which are those of the events; the others stay armed.
  The body of \<^verbatim>\<open>wake_poll\<close> is not among the sources: the call is an effect.\<close>

definition wake_registration ::
  "short \<Rightarrow> 'cb FileHandleDeviceWakeHelper \<Rightarrow>
     'cb effect list \<times> 'cb FileHandleDeviceWakeHelper" where
  "wake_registration events st =
     (if events AND poll_wake_events st \<noteq> 0
      then ([Wake_poll events], st\<lparr>poll_wake_events := poll_wake_events st AND NOT events\<rparr>)
      else ([], st))"

text \<open>Modelled from the spec: the state-change callback, invoked by every call of \<^verbatim>\<open>wake\<close>
  "independent of the single-shot registration". With no callback registered there is
  none to invoke.\<close>

definition wake_sigio :: "'cb FileHandleDeviceWakeHelper \<Rightarrow> 'cb effect list" where
  "wake_sigio st = (case sigio_cb st of None \<Rightarrow> [] | Some cb \<Rightarrow> [Invoke cb])"

text \<open>Modelled from the spec: \<^verbatim>\<open>FileHandleDeviceWakeHelper::wake\<close>, the three steps in
  their order and the callback.\<close>

definition FileHandleDeviceWakeHelper_wake ::
  "poll_consts \<Rightarrow> short \<Rightarrow> 'cb FileHandleDeviceWakeHelper \<Rightarrow>
     'cb effect list \<times> 'cb FileHandleDeviceWakeHelper" where
  "FileHandleDeviceWakeHelper_wake pc events st =
     (case wake_rx pc events st of (fx1, st1) \<Rightarrow>
      case wake_tx pc events st1 of (fx2, st2) \<Rightarrow>
      case wake_registration events st2 of (fx3, st3) \<Rightarrow>
        (fx1 @ fx2 @ fx3 @ wake_sigio st3, st3))"

subsection \<open>Sequences of calls on one adapter\<close>

text \<open>
  The calls that change the adapter's members, in the order in which they reach it. A
  call of \<^verbatim>\<open>poll_with_wake\<close> carries the state the device is in when it is made.
\<close>

datatype ('cb, 'd) call =
    Wake short
  | Poll_with_wake short bool 'd
  | Sigio "'cb option"
  | Set_blocking bool

fun step ::
  "poll_consts \<Rightarrow> ('d, 'm) device_scheme \<Rightarrow> ('cb, 'd) call \<Rightarrow> 'cb FileHandleDeviceWakeHelper \<Rightarrow>
     'cb effect list \<times> 'cb FileHandleDeviceWakeHelper" where
  "step pc dev (Wake events) st = FileHandleDeviceWakeHelper_wake pc events st"
| "step pc dev (Poll_with_wake events wake d) st =
     ([], snd (FileHandleDeviceWakeHelper_poll_with_wake dev events wake st d))"
| "step pc dev (Sigio func) st = ([], FileHandleDeviceWakeHelper_sigio func st)"
| "step pc dev (Set_blocking b) st = ([], snd (FileHandleDeviceWakeHelper_set_blocking b st))"

fun run ::
  "poll_consts \<Rightarrow> ('d, 'm) device_scheme \<Rightarrow> ('cb, 'd) call list \<Rightarrow> 'cb FileHandleDeviceWakeHelper \<Rightarrow>
     'cb effect list \<times> 'cb FileHandleDeviceWakeHelper" where
  "run pc dev [] st = ([], st)"
| "run pc dev (c # cs) st =
     (case step pc dev c st of (fx, st1) \<Rightarrow>
      case run pc dev cs st1 of (fxs, st2) \<Rightarrow> (fx @ fxs, st2))"

text \<open>The invocations of the callback among the effects, and the calls of \<^verbatim>\<open>wake_poll\<close>.\<close>

fun invocations :: "'cb effect list \<Rightarrow> 'cb list" where
  "invocations [] = []"
| "invocations (Invoke cb # fx) = cb # invocations fx"
| "invocations (e # fx) = invocations fx"

fun wake_polls :: "'cb effect list \<Rightarrow> short list" where
  "wake_polls [] = []"
| "wake_polls (Wake_poll events # fx) = events # wake_polls fx"
| "wake_polls (e # fx) = wake_polls fx"

text \<open>A call that arms bit \<open>k\<close>, and a call that wakes on bit \<open>k\<close>.\<close>

fun arms :: "('d, 'm) device_scheme \<Rightarrow> nat \<Rightarrow> ('cb, 'd) call \<Rightarrow> bool" where
  "arms dev k (Poll_with_wake events wake d) =
     (wake \<and> poll dev events d AND events = 0 \<and> bit events k)"
| "arms dev k c = False"

fun wakes :: "nat \<Rightarrow> ('cb, 'd) call \<Rightarrow> bool" where
  "wakes k (Wake events) = bit events k"
| "wakes k c = False"

text \<open>What a call of \<^verbatim>\<open>read\<close> or \<^verbatim>\<open>write\<close> did: how often it called the device's
  primitive, how often it suspended, and whether the primitive ever reported not-ready
  before its last call.\<close>

fun calls :: "action list \<Rightarrow> nat" where
  "calls [] = 0"
| "calls (Wait dir # tr) = calls tr"
| "calls (a # tr) = Suc (calls tr)"

fun waits :: "action list \<Rightarrow> nat" where
  "waits [] = 0"
| "waits (Wait dir # tr) = Suc (waits tr)"
| "waits (a # tr) = waits tr"

fun not_ready :: "action \<Rightarrow> bool" where
  "not_ready (Call_read r) = (r = - EAGAIN)"
| "not_ready (Call_write n) = (n = - EAGAIN)"
| "not_ready (Wait dir) = False"

fun not_ready_only_last :: "action list \<Rightarrow> bool" where
  "not_ready_only_last [] = True"
| "not_ready_only_last [a] = True"
| "not_ready_only_last (a # b # tr) = (\<not> not_ready a \<and> not_ready_only_last (b # tr))"

text \<open>
  The course of a write, told from the device's side. \<open>not_ready_rounds dev wait buf d k\<close>
  is the state in which the caller resumes for the \<open>k\<close>-th time, when each of \<open>k\<close>
  attempts to write \<open>buf\<close>, the first in state \<open>d\<close>, was answered not-ready and followed
  by a signal. \<open>accepted_calls dev buf written d ns\<close> is the state of the device after
  successive calls, each on the bytes not yet written, that accepted the byte counts
  \<open>ns\<close>, with \<open>written\<close> bytes written before the first.
\<close>

fun not_ready_rounds ::
  "('d, 'm) device_scheme \<Rightarrow> 'd waiting \<Rightarrow> byte list \<Rightarrow> 'd \<Rightarrow> nat \<Rightarrow> 'd option" where
  "not_ready_rounds dev wait buf d 0 = Some d"
| "not_ready_rounds dev wait buf d (Suc k) =
     (if fst (write_nonblocking dev buf d) = - EAGAIN
      then (case wait Tx (snd (write_nonblocking dev buf d)) of
              None \<Rightarrow> None
            | Some d2 \<Rightarrow> not_ready_rounds dev wait buf d2 k)
      else None)"

fun accepted_calls ::
  "('d, 'm) device_scheme \<Rightarrow> byte list \<Rightarrow> nat \<Rightarrow> 'd \<Rightarrow> ssize_t list \<Rightarrow> 'd option" where
  "accepted_calls dev buf written d [] = Some d"
| "accepted_calls dev buf written d (n # ns) =
     (if written < length buf \<and> 0 \<le> n \<and> fst (write_nonblocking dev (drop written buf) d) = n
      then accepted_calls dev buf (written + nat n)
             (snd (write_nonblocking dev (drop written buf) d)) ns
      else None)"

text \<open>The actions of \<open>k\<close> rounds of a not-ready attempt and a suspension.\<close>

fun rounds :: "nat \<Rightarrow> action list" where
  "rounds 0 = []"
| "rounds (Suc k) = Call_write (- EAGAIN) # Wait Tx # rounds k"

section \<open>Example handles and devices\<close>

text \<open>A handle whose state is the readiness mask itself: \<^verbatim>\<open>poll\<close> returns the requested
  bits that are set in it.\<close>

definition mask_handle :: "short FileHandle" where
  "mask_handle = \<lparr>seek = (\<lambda>offset whence s. (offset, s)), sync = (\<lambda>s. (0, s)),
                   size_v = (\<lambda>s. (0, s)), poll = (\<lambda>events s. s AND events)\<rparr>"

text \<open>
  A device whose state is the list of the results that its primitives will report, one
  for each call, and not-ready once the list is used up. It is never ready for
  \<^verbatim>\<open>poll\<close>. \<open>resumes\<close> is the waiting in which the signal always comes and finds the
  device as it was.
\<close>

definition scripted :: "bool \<Rightarrow> ssize_t list device" where
  "scripted stream =
     \<lparr>seek = (\<lambda>offset whence d. (- 1, d)), sync = (\<lambda>d. (0, d)), size_v = (\<lambda>d. (- 1, d)),
      poll = (\<lambda>events d. 0),
      is_stream = (\<lambda>d. stream),
      read_nonblocking = (\<lambda>len d. case d of [] \<Rightarrow> (- EAGAIN, [], [])
                                   | r # rs \<Rightarrow> (r, replicate (nat r) 0, rs)),
      write_nonblocking = (\<lambda>buf d. case d of [] \<Rightarrow> (- EAGAIN, [])
                                    | n # ns \<Rightarrow> (n, ns))\<rparr>"

definition resumes :: "ssize_t list waiting" where
  "resumes dir d = Some d"

text \<open>The waiting in which the signal comes as long as the device has results left to
  report, and never once it has none.\<close>

definition resumes_while_scripted :: "ssize_t list waiting" where
  "resumes_while_scripted dir d = (if d = [] then None else Some d)"

text \<open>Adapters: one with two readers and one writer suspended, one with the callback 7
  registered, one in non-blocking mode.\<close>

definition two_readers_one_writer :: "nat FileHandleDeviceWakeHelper" where
  "two_readers_one_writer =
     FileHandleDeviceWakeHelper_init\<lparr>cv_rx := \<lparr>waiters = [1, 2]\<rparr>, cv_tx := \<lparr>waiters = [3]\<rparr>\<rparr>"

definition with_callback :: "nat FileHandleDeviceWakeHelper" where
  "with_callback = FileHandleDeviceWakeHelper_sigio (Some 7) FileHandleDeviceWakeHelper_init"

definition nonblocking_adapter :: "nat FileHandleDeviceWakeHelper" where
  "nonblocking_adapter =
     snd (FileHandleDeviceWakeHelper_set_blocking False FileHandleDeviceWakeHelper_init)"

section \<open>Facts about the machine types\<close>

lemma promote_and: "promote a AND promote b = promote (a AND b)"
  unfolding promote_def by (rule bit_word_eqI) (auto simp: bit_simps)

lemma promote_eq_0: "(promote a = 0) = (a = 0)"
proof
  assume "promote a = 0"
  then have z: "\<And>n. \<not> bit (scast a :: cint) n" by (simp add: promote_def)
  have "\<not> bit a n" if "n < 16" for n
  proof (cases "n = 15")
    case True then show ?thesis using z [of 15] by (simp add: bit_simps)
  next
    case False then show ?thesis using z [of n] that by (simp add: bit_simps min_def)
  qed
  then show "a = 0" by (intro bit_word_eqI) simp
qed (simp add: promote_def)

lemma to_bool_and: "to_bool (promote a AND promote b) = (a AND b \<noteq> 0)"
  by (simp add: to_bool_def promote_and promote_eq_0)

lemma narrow_promote_or: "narrow (promote a OR promote b) = a OR b"
  unfolding promote_def narrow_def by (rule bit_word_eqI) (auto simp: bit_simps)

lemma single_bit_bit:
  assumes "single_bit x" shows "\<exists>i<15. \<forall>n. bit x n = (n = i)"
proof -
  from assms obtain i where i: "i < 15" "x = push_bit i 1" unfolding single_bit_def by auto
  have "\<forall>n. bit x n = (n = i)" using i by (auto simp: bit_simps)
  with i(1) show ?thesis by blast
qed

lemma single_bit_nz:
  assumes "single_bit x" shows "x \<noteq> 0"
proof
  assume "x = 0"
  moreover from assms obtain i where "\<forall>n. bit x n = (n = i)" using single_bit_bit by blast
  ultimately show False by simp
qed

lemma single_bit_and:
  assumes "single_bit x" shows "(y AND x \<noteq> 0) = (y AND x = x)"
proof -
  from assms obtain i where i: "\<forall>n. bit x n = (n = i)" using single_bit_bit by blast
  have bits: "bit (y AND x) n = (bit y i \<and> n = i)" for n
    using i by (auto simp: bit_simps)
  have a: "(y AND x = x) = bit y i"
  proof
    assume "y AND x = x"
    then have "bit (y AND x) i = bit x i" by simp
    then show "bit y i" using i bits by simp
  next
    assume "bit y i"
    then show "y AND x = x" using i bits by (intro bit_word_eqI) simp
  qed
  have b: "(y AND x = 0) = (\<not> bit y i)"
  proof
    assume "y AND x = 0"
    then have "\<not> bit (y AND x) i" by simp
    then show "\<not> bit y i" using bits by simp
  next
    assume "\<not> bit y i"
    then show "y AND x = 0" using bits by (intro bit_word_eqI) simp
  qed
  show ?thesis using a b by simp
qed

lemma single_bit_disj:
  assumes "single_bit x" "single_bit y" "x \<noteq> y" shows "x AND y = 0"
proof -
  from assms obtain i where i: "\<forall>n. bit x n = (n = i)" using single_bit_bit by blast
  from assms obtain j where j: "\<forall>n. bit y n = (n = j)" using single_bit_bit by blast
  have "i \<noteq> j" using assms(3) i j by (auto simp: bit_eq_iff [of x y])
  then show ?thesis using i j by (auto simp: bit_eq_iff [of "x AND y" 0] bit_simps)
qed

section \<open>The base class\<close>

lemma mbed_poll_ok: "poll_consts_ok mbed_poll"
  unfolding poll_consts_ok_def mbed_poll_def single_bit_def by (simp add: upt_conv_Cons)

lemma mbed_poll_simps:
  "POLLIN mbed_poll = 0x0001" "POLLOUT mbed_poll = 0x0010" "POLLERR mbed_poll = 0x1000"
  "POLLHUP mbed_poll = 0x2000" "POLLNVAL mbed_poll = 0x4000"
  by (simp_all add: mbed_poll_def)

text \<open>
  Claim C1. For every handle and every state of it, \<^verbatim>\<open>readable()\<close> is true exactly when
  the mask that \<^verbatim>\<open>poll(POLLIN)\<close> returns contains the bit \<^verbatim>\<open>POLLIN\<close>, and \<^verbatim>\<open>writable()\<close>
  exactly when the mask that \<^verbatim>\<open>poll(POLLOUT)\<close> returns contains the bit \<^verbatim>\<open>POLLOUT\<close>. The
  right-hand sides mention nothing but that mask: no other state is consulted.
\<close>

theorem readable_writable_mask_poll:
  assumes "poll_consts_ok pc"
  shows "readable pc fh s = (poll fh (POLLIN pc) s AND POLLIN pc = POLLIN pc) \<and>
         writable pc fh s = (poll fh (POLLOUT pc) s AND POLLOUT pc = POLLOUT pc)"
proof -
  have i: "single_bit (POLLIN pc)" and out: "single_bit (POLLOUT pc)"
    using assms by (simp_all add: poll_consts_ok_def)
  show ?thesis
    by (simp add: readable_def writable_def to_bool_and single_bit_and [OF i] single_bit_and [OF out])
qed

theorem readable_writable_mask_poll_witness:
  "poll_consts_ok mbed_poll \<and> readable mbed_poll mask_handle 0x0001 \<and>
   \<not> writable mbed_poll mask_handle 0x0001"
  using readable_writable_mask_poll [OF mbed_poll_ok, of mask_handle "0x0001"] mbed_poll_ok
  by (simp add: mask_handle_def mbed_poll_simps)

text \<open>
  Claim C10. The default \<^verbatim>\<open>poll\<close> of the base class returns \<^verbatim>\<open>POLLIN | POLLOUT\<close> whatever
  events are asked for, also when none is asked for; the mask holds none of the error,
  hangup and invalid bits; and a handle that uses this default is always readable and
  writable.
\<close>

theorem default_poll_always_ready:
  assumes "poll_consts_ok pc"
  shows "FileHandle_poll pc events s = POLLIN pc OR POLLOUT pc \<and>
         FileHandle_poll pc 0 s \<noteq> 0 \<and>
         FileHandle_poll pc events s AND POLLERR pc = 0 \<and>
         FileHandle_poll pc events s AND POLLHUP pc = 0 \<and>
         FileHandle_poll pc events s AND POLLNVAL pc = 0 \<and>
         readable pc (fh\<lparr>poll := FileHandle_poll pc\<rparr>) s \<and>
         writable pc (fh\<lparr>poll := FileHandle_poll pc\<rparr>) s"
proof -
  have sb: "single_bit (POLLIN pc)" "single_bit (POLLOUT pc)" "single_bit (POLLERR pc)"
      "single_bit (POLLHUP pc)" "single_bit (POLLNVAL pc)"
    and ne: "POLLIN pc \<noteq> POLLERR pc" "POLLIN pc \<noteq> POLLHUP pc" "POLLIN pc \<noteq> POLLNVAL pc"
      "POLLOUT pc \<noteq> POLLERR pc" "POLLOUT pc \<noteq> POLLHUP pc" "POLLOUT pc \<noteq> POLLNVAL pc"
    using assms by (auto simp: poll_consts_ok_def)
  have p: "FileHandle_poll pc e s = POLLIN pc OR POLLOUT pc" for e
    by (simp add: FileHandle_poll_def narrow_promote_or)
  have nz: "POLLIN pc OR POLLOUT pc \<noteq> 0"
    using single_bit_nz [OF sb(1)] by (simp add: or_eq_0_iff)
  have err: "(POLLIN pc OR POLLOUT pc) AND POLLERR pc = 0"
    by (simp add: bit.conj_disj_distrib2 single_bit_disj sb ne)
  have hup: "(POLLIN pc OR POLLOUT pc) AND POLLHUP pc = 0"
    by (simp add: bit.conj_disj_distrib2 single_bit_disj sb ne)
  have nval: "(POLLIN pc OR POLLOUT pc) AND POLLNVAL pc = 0"
    by (simp add: bit.conj_disj_distrib2 single_bit_disj sb ne)
  have r: "readable pc (fh\<lparr>poll := FileHandle_poll pc\<rparr>) s"
    using single_bit_nz [OF sb(1)]
    by (simp add: readable_def to_bool_and p bit.conj_disj_distrib2)
  have w: "writable pc (fh\<lparr>poll := FileHandle_poll pc\<rparr>) s"
    using single_bit_nz [OF sb(2)]
    by (simp add: writable_def to_bool_and p bit.conj_disj_distrib2)
  show ?thesis using p nz err hup nval r w by simp
qed

theorem default_poll_always_ready_witness:
  "poll_consts_ok mbed_poll \<and> FileHandle_poll mbed_poll 0x1000 (0 :: short) = 0x0011 \<and>
   readable mbed_poll (mask_handle\<lparr>poll := FileHandle_poll mbed_poll\<rparr>) 0 \<and>
   writable mbed_poll (mask_handle\<lparr>poll := FileHandle_poll mbed_poll\<rparr>) 0"
  using default_poll_always_ready [OF mbed_poll_ok, of "0x1000" "0 :: short" mask_handle] mbed_poll_ok
  by (simp add: mbed_poll_simps)

text \<open>
  Claim C7. The default \<^verbatim>\<open>tell()\<close> returns what \<^verbatim>\<open>seek(0, SEEK_CUR)\<close> returns, and leaves
  the handle as that call leaves it. The default \<^verbatim>\<open>rewind()\<close> performs
  \<^verbatim>\<open>seek(0, SEEK_SET)\<close> and drops its result: it yields the new state only, whatever the
  seek reported.
\<close>

theorem tell_rewind_default:
  "FileHandle_tell fh s = seek fh 0 SEEK_CUR s \<and>
   FileHandle_rewind fh s = snd (seek fh 0 SEEK_SET s)"
  by (simp add: FileHandle_tell_def FileHandle_rewind_def split: prod.split)

text \<open>
  Claim C9. The legacy operations forward: \<^verbatim>\<open>lseek(offset, whence)\<close> is
  \<^verbatim>\<open>seek(offset, whence)\<close>, \<^verbatim>\<open>fsync()\<close> is \<^verbatim>\<open>sync()\<close> and \<^verbatim>\<open>flen()\<close> is \<^verbatim>\<open>size()\<close>, in
  result and in effect on the handle, for every offset and whence.
\<close>

theorem legacy_forwarders:
  "FileHandle_lseek fh offset whence s = seek fh offset whence s \<and>
   FileHandle_fsync fh s = sync fh s \<and>
   FileHandle_flen fh s = size_v fh s"
  by (simp add: FileHandle_lseek_def FileHandle_fsync_def FileHandle_flen_def)

text \<open>
  Claim C6. For every argument the adapter's \<^verbatim>\<open>set_blocking\<close> returns 0 and stores the
  argument in the blocking flag, which \<^verbatim>\<open>is_blocking()\<close> then reports; it changes nothing
  else of the adapter, so it signals no wait primitive. The default of the base class
  returns a negative code for every argument and leaves the handle as it was.
\<close>

theorem set_blocking_adapter_and_base:
  "fst (FileHandleDeviceWakeHelper_set_blocking b st) = 0 \<and>
   is_blocking (snd (FileHandleDeviceWakeHelper_set_blocking b st)) = b \<and>
   snd (FileHandleDeviceWakeHelper_set_blocking b st) = st\<lparr>blocking := b\<rparr> \<and>
   fst (FileHandle_set_blocking b s) < 0 \<and>
   snd (FileHandle_set_blocking b s) = s"
  by (simp add: FileHandleDeviceWakeHelper_set_blocking_def is_blocking_def
      FileHandle_set_blocking_def)

text \<open>
  Claim C8. A freshly constructed adapter is in blocking mode, has no bit armed in its
  single-shot registration and has no callback registered.
\<close>

theorem constructor_state:
  "is_blocking (FileHandleDeviceWakeHelper_init :: 'cb FileHandleDeviceWakeHelper) \<and>
   poll_wake_events (FileHandleDeviceWakeHelper_init :: 'cb FileHandleDeviceWakeHelper) = 0 \<and>
   (\<forall>k. \<not> bit (poll_wake_events (FileHandleDeviceWakeHelper_init :: 'cb FileHandleDeviceWakeHelper)) k) \<and>
   sigio_cb (FileHandleDeviceWakeHelper_init :: 'cb FileHandleDeviceWakeHelper) = None"
  by (simp add: FileHandleDeviceWakeHelper_init_def is_blocking_def)

section \<open>The adapter: waking and the single-shot registration\<close>

lemma wake_rx_fst:
  "fst (wake_rx pc events st) =
     (if events AND rx_events pc \<noteq> 0 then [Signal Rx (waiters (cv_rx st))] else [])"
  by (simp add: wake_rx_def notify_all_def)

lemma wake_rx_sel:
  "cv_rx (snd (wake_rx pc events st)) =
     (if events AND rx_events pc \<noteq> 0 then (cv_rx st)\<lparr>waiters := []\<rparr> else cv_rx st)"
  "cv_tx (snd (wake_rx pc events st)) = cv_tx st"
  "poll_wake_events (snd (wake_rx pc events st)) = poll_wake_events st"
  "sigio_cb (snd (wake_rx pc events st)) = sigio_cb st"
  "blocking (snd (wake_rx pc events st)) = blocking st"
  by (cases "events AND rx_events pc \<noteq> 0"; simp add: wake_rx_def notify_all_def)+

lemma wake_tx_fst:
  "fst (wake_tx pc events st) =
     (if events AND tx_events pc \<noteq> 0 then [Signal Tx (waiters (cv_tx st))] else [])"
  by (simp add: wake_tx_def notify_all_def)

lemma wake_tx_sel:
  "cv_tx (snd (wake_tx pc events st)) =
     (if events AND tx_events pc \<noteq> 0 then (cv_tx st)\<lparr>waiters := []\<rparr> else cv_tx st)"
  "cv_rx (snd (wake_tx pc events st)) = cv_rx st"
  "poll_wake_events (snd (wake_tx pc events st)) = poll_wake_events st"
  "sigio_cb (snd (wake_tx pc events st)) = sigio_cb st"
  "blocking (snd (wake_tx pc events st)) = blocking st"
  by (cases "events AND tx_events pc \<noteq> 0"; simp add: wake_tx_def notify_all_def)+

lemma wake_registration_fst:
  "fst (wake_registration events st) =
     (if events AND poll_wake_events st \<noteq> 0 then [Wake_poll events] else [])"
  by (simp add: wake_registration_def)

lemma and_not_disjoint:
  assumes "(e :: short) AND r = 0" shows "r AND NOT e = r"
proof (rule bit_word_eqI)
  fix n assume n: "n < LENGTH(16)"
  from assms have "\<not> bit (e AND r) n" by simp
  then show "bit (r AND NOT e) n = bit r n" using n by (auto simp: bit_simps)
qed

lemma wake_registration_sel:
  "poll_wake_events (snd (wake_registration events st)) = poll_wake_events st AND NOT events"
  "cv_rx (snd (wake_registration events st)) = cv_rx st"
  "cv_tx (snd (wake_registration events st)) = cv_tx st"
  "sigio_cb (snd (wake_registration events st)) = sigio_cb st"
  "blocking (snd (wake_registration events st)) = blocking st"
  by (cases "events AND poll_wake_events st \<noteq> 0";
      simp add: wake_registration_def and_not_disjoint)+

lemma wake_fst:
  "fst (FileHandleDeviceWakeHelper_wake pc events st) =
     fst (wake_rx pc events st) @ fst (wake_tx pc events (snd (wake_rx pc events st))) @
     fst (wake_registration events (snd (wake_tx pc events (snd (wake_rx pc events st))))) @
     wake_sigio (snd (wake_registration events (snd (wake_tx pc events (snd (wake_rx pc events st))))))"
  by (simp add: FileHandleDeviceWakeHelper_wake_def split: prod.split)

lemma wake_snd:
  "snd (FileHandleDeviceWakeHelper_wake pc events st) =
     snd (wake_registration events (snd (wake_tx pc events (snd (wake_rx pc events st)))))"
  by (simp add: FileHandleDeviceWakeHelper_wake_def split: prod.split)

lemmas wake_sel = wake_rx_sel wake_tx_sel wake_registration_sel

text \<open>
  Claim C4. A call of \<^verbatim>\<open>wake(events)\<close> whose events intersect the readable, error or
  hangup bit signals the receive wait primitive, releasing every reader that is
  suspended on it; one whose events intersect the writable, hangup or error bit signals
  the transmit wait primitive, releasing every suspended writer.
\<close>

theorem wake_signals_both_directions:
  "(events AND (POLLIN pc OR POLLERR pc OR POLLHUP pc) \<noteq> 0 \<longrightarrow>
      Signal Rx (waiters (cv_rx st)) \<in> set (fst (FileHandleDeviceWakeHelper_wake pc events st)) \<and>
      waiters (cv_rx (snd (FileHandleDeviceWakeHelper_wake pc events st))) = []) \<and>
   (events AND (POLLOUT pc OR POLLHUP pc OR POLLERR pc) \<noteq> 0 \<longrightarrow>
      Signal Tx (waiters (cv_tx st)) \<in> set (fst (FileHandleDeviceWakeHelper_wake pc events st)) \<and>
      waiters (cv_tx (snd (FileHandleDeviceWakeHelper_wake pc events st))) = [])"
  by (simp add: wake_fst wake_snd wake_rx_fst wake_tx_fst wake_sel
      rx_events_def tx_events_def)

theorem wake_signals_both_directions_witness:
  "(0x2000 :: short) AND (POLLIN mbed_poll OR POLLERR mbed_poll OR POLLHUP mbed_poll) \<noteq> 0 \<and>
   (0x2000 :: short) AND (POLLOUT mbed_poll OR POLLHUP mbed_poll OR POLLERR mbed_poll) \<noteq> 0 \<and>
   Signal Rx [1, 2] \<in> set (fst (FileHandleDeviceWakeHelper_wake mbed_poll 0x2000 two_readers_one_writer)) \<and>
   Signal Tx [3] \<in> set (fst (FileHandleDeviceWakeHelper_wake mbed_poll 0x2000 two_readers_one_writer))"
  using wake_signals_both_directions [of "0x2000" mbed_poll two_readers_one_writer]
  by (simp add: two_readers_one_writer_def mbed_poll_simps)

lemma wake_poll_wake_events:
  "poll_wake_events (snd (FileHandleDeviceWakeHelper_wake pc e st)) = poll_wake_events st AND NOT e"
  by (simp add: wake_snd wake_sel)

lemma wake_sigio_cb:
  "sigio_cb (snd (FileHandleDeviceWakeHelper_wake pc e st)) = sigio_cb st"
  by (simp add: wake_snd wake_sel)

lemma invocations_append: "invocations (fx @ fx') = invocations fx @ invocations fx'"
  by (induction fx rule: invocations.induct) simp_all

lemma wake_polls_append: "wake_polls (fx @ fx') = wake_polls fx @ wake_polls fx'"
  by (induction fx rule: wake_polls.induct) simp_all

lemma wake_invocations:
  "invocations (fst (FileHandleDeviceWakeHelper_wake pc e st)) =
     (case sigio_cb st of None \<Rightarrow> [] | Some cb \<Rightarrow> [cb])"
  by (simp add: wake_fst invocations_append wake_rx_fst wake_tx_fst wake_registration_fst
      wake_sigio_def wake_sel split: option.split)

lemma wake_wake_polls:
  "wake_polls (fst (FileHandleDeviceWakeHelper_wake pc e st)) =
     (if e AND poll_wake_events st \<noteq> 0 then [e] else [])"
  by (simp add: wake_fst wake_polls_append wake_rx_fst wake_tx_fst wake_registration_fst
      wake_sigio_def wake_sel split: option.split)

lemma poll_with_wake_events:
  "poll_wake_events (snd (FileHandleDeviceWakeHelper_poll_with_wake dev events wake st d)) =
     (if wake \<and> poll dev events d AND events = 0 then poll_wake_events st OR events
      else poll_wake_events st)"
  by (simp add: FileHandleDeviceWakeHelper_poll_with_wake_def Let_def)

lemma poll_with_wake_sigio_cb:
  "sigio_cb (snd (FileHandleDeviceWakeHelper_poll_with_wake dev events wake st d)) = sigio_cb st"
  by (simp add: FileHandleDeviceWakeHelper_poll_with_wake_def Let_def)

lemma step_keeps_armed:
  assumes "\<not> wakes k c" "bit (poll_wake_events st) k"
  shows "bit (poll_wake_events (snd (step pc dev c st))) k"
  using assms
  by (cases c)
    (auto simp: wake_poll_wake_events poll_with_wake_events bit_simps
      FileHandleDeviceWakeHelper_sigio_def FileHandleDeviceWakeHelper_set_blocking_def
      dest: bit_imp_le_length)

lemma step_keeps_cleared:
  assumes "\<not> arms dev k c" "\<not> bit (poll_wake_events st) k"
  shows "\<not> bit (poll_wake_events (snd (step pc dev c st))) k"
  using assms
  by (cases c)
    (auto simp: wake_poll_wake_events poll_with_wake_events bit_simps
      FileHandleDeviceWakeHelper_sigio_def FileHandleDeviceWakeHelper_set_blocking_def)

lemma run_snd_Cons:
  "snd (run pc dev (c # cs) st) = snd (run pc dev cs (snd (step pc dev c st)))"
  by (simp split: prod.split)

lemma run_keeps_armed:
  assumes "\<forall>c\<in>set cs. \<not> wakes k c" "bit (poll_wake_events st) k"
  shows "bit (poll_wake_events (snd (run pc dev cs st))) k"
  using assms
proof (induction cs arbitrary: st)
  case Nil
  then show ?case by simp
next
  case (Cons c cs)
  have "bit (poll_wake_events (snd (step pc dev c st))) k"
    using Cons.prems by (intro step_keeps_armed) simp_all
  then show ?case
    using Cons.prems unfolding run_snd_Cons by (intro Cons.IH) simp_all
qed

lemma run_keeps_cleared:
  assumes "\<forall>c\<in>set cs. \<not> arms dev k c" "\<not> bit (poll_wake_events st) k"
  shows "\<not> bit (poll_wake_events (snd (run pc dev cs st))) k"
  using assms
proof (induction cs arbitrary: st)
  case Nil
  then show ?case by simp
next
  case (Cons c cs)
  have "\<not> bit (poll_wake_events (snd (step pc dev c st))) k"
    using Cons.prems by (intro step_keeps_cleared) simp_all
  then show ?case
    using Cons.prems unfolding run_snd_Cons by (intro Cons.IH) simp_all
qed

lemma bit_and_nonzero:
  assumes "bit (e :: short) k" "bit r k" shows "e AND r \<noteq> 0"
proof
  assume "e AND r = 0"
  then have "\<not> bit (e AND r) k" by simp
  then show False using assms by (simp add: bit_simps)
qed

text \<open>
  Claim C3, amended. Let bit \<open>k\<close> be among the events of a \<^verbatim>\<open>poll_with_wake\<close> that arms
  (none of the requested bits is set), let no call of \<^verbatim>\<open>wake\<close> before the next one carry
  bit \<open>k\<close>, and let a callback be registered when that one comes. Then that call calls
  \<^verbatim>\<open>wake_poll\<close> exactly once, invokes the callback exactly once, and clears from the
  registration exactly the bits of its events; every other armed bit stays armed. From
  then on, as long as no \<^verbatim>\<open>poll_with_wake\<close> arms bit \<open>k\<close> again, the bit stays cleared
  and a call of \<^verbatim>\<open>wake\<close> calls \<^verbatim>\<open>wake_poll\<close> exactly if its events contain a bit that is
  still armed: a wake of bit \<open>k\<close> alone does not. The callback is not single-shot: every
  later call of \<^verbatim>\<open>wake\<close> invokes the callback that is registered then, once, whatever its
  events and whatever is armed.
\<close>

theorem single_shot_registration:
  assumes arm: "bit events k" "poll dev events d AND events = 0"
    and mid: "\<forall>c\<in>set mid. \<not> wakes k c"
    and st2: "st2 = snd (run pc dev (Poll_with_wake events True d # mid) st)"
    and cb: "sigio_cb st2 = Some cb"
    and fire: "bit e k"
    and st3: "st3 = snd (FileHandleDeviceWakeHelper_wake pc e st2)"
    and later: "\<forall>c\<in>set later. \<not> arms dev k c"
    and st4: "st4 = snd (run pc dev later st3)"
  shows "wake_polls (fst (FileHandleDeviceWakeHelper_wake pc e st2)) = [e] \<and>
         invocations (fst (FileHandleDeviceWakeHelper_wake pc e st2)) = [cb] \<and>
         poll_wake_events st3 = poll_wake_events st2 AND NOT e \<and>
         \<not> bit (poll_wake_events st4) k \<and>
         (\<forall>e'. wake_polls (fst (FileHandleDeviceWakeHelper_wake pc e' st4)) =
                (if e' AND poll_wake_events st4 \<noteq> 0 then [e'] else [])) \<and>
         wake_polls (fst (FileHandleDeviceWakeHelper_wake pc (push_bit k 1) st4)) = [] \<and>
         (\<forall>e'. invocations (fst (FileHandleDeviceWakeHelper_wake pc e' st4)) =
                (case sigio_cb st4 of None \<Rightarrow> [] | Some cb' \<Rightarrow> [cb']))"
proof -
  let ?st1 = "snd (step pc dev (Poll_with_wake events True d) st)"
  have "bit (poll_wake_events ?st1) k"
    using arm by (simp add: poll_with_wake_events bit_simps)
  then have armed: "bit (poll_wake_events st2) k"
    unfolding st2 run_snd_Cons using mid by (rule run_keeps_armed [rotated])
  have notified: "wake_polls (fst (FileHandleDeviceWakeHelper_wake pc e st2)) = [e]"
    using bit_and_nonzero [OF fire armed] by (simp add: wake_wake_polls)
  have one: "invocations (fst (FileHandleDeviceWakeHelper_wake pc e st2)) = [cb]"
    using cb by (simp add: wake_invocations)
  have reg: "poll_wake_events st3 = poll_wake_events st2 AND NOT e"
    unfolding st3 by (rule wake_poll_wake_events)
  have "\<not> bit (poll_wake_events st3) k"
    using fire by (simp add: reg bit_simps)
  then have cleared: "\<not> bit (poll_wake_events st4) k"
    unfolding st4 using later by (rule run_keeps_cleared [rotated])
  have "push_bit k 1 AND poll_wake_events st4 = 0"
    using cleared by (intro bit_word_eqI) (auto simp: bit_simps)
  then have alone: "wake_polls (fst (FileHandleDeviceWakeHelper_wake pc (push_bit k 1) st4)) = []"
    by (simp add: wake_wake_polls)
  show ?thesis
    using notified one reg cleared alone by (simp add: wake_wake_polls wake_invocations)
qed

lemma with_callback_simps:
  "sigio_cb with_callback = Some 7" "poll_wake_events with_callback = 0"
  by (simp_all add: with_callback_def FileHandleDeviceWakeHelper_sigio_def
      FileHandleDeviceWakeHelper_init_def)

lemmas registration_sel =
  wake_poll_wake_events wake_sigio_cb poll_with_wake_events poll_with_wake_sigio_cb

lemma scripted_poll: "poll (scripted stream) events d = 0"
  by (simp add: scripted_def)

theorem single_shot_registration_witness:
  "bit (0x0011 :: short) 0 \<and>
   poll (scripted True) 0x0011 [] AND 0x0011 = 0 \<and>
   \<not> wakes 0 (Wake 0x1000 :: (nat, ssize_t list) call) \<and>
   sigio_cb (snd (run mbed_poll (scripted True)
      [Poll_with_wake 0x0011 True [], Wake 0x1000] with_callback)) = Some 7 \<and>
   bit (0x0001 :: short) 0 \<and>
   \<not> arms (scripted True) 0 (Wake 0x0001 :: (nat, ssize_t list) call) \<and>
   \<not> arms (scripted True) 0 (Poll_with_wake 0x0010 True [] :: (nat, ssize_t list) call) \<and>
   wake_polls (fst (FileHandleDeviceWakeHelper_wake mbed_poll 0x0001
      (snd (run mbed_poll (scripted True)
         [Poll_with_wake 0x0011 True [], Wake 0x1000] with_callback)))) = [0x0001] \<and>
   invocations (fst (FileHandleDeviceWakeHelper_wake mbed_poll 0x0001
      (snd (run mbed_poll (scripted True)
         [Poll_with_wake 0x0011 True [], Wake 0x1000] with_callback)))) = [7] \<and>
   wake_polls (fst (FileHandleDeviceWakeHelper_wake mbed_poll (push_bit 0 1)
      (snd (run mbed_poll (scripted True) [Wake 0x0001, Poll_with_wake 0x0010 True []]
         (snd (FileHandleDeviceWakeHelper_wake mbed_poll 0x0001
            (snd (run mbed_poll (scripted True)
               [Poll_with_wake 0x0011 True [], Wake 0x1000] with_callback)))))))) = []"
proof -
  have h1: "bit (0x0011 :: short) 0" by simp
  have h2: "poll (scripted True) 0x0011 [] AND 0x0011 = 0" by (simp add: scripted_poll)
  have h3: "\<forall>c\<in>set [Wake 0x1000 :: (nat, ssize_t list) call]. \<not> wakes 0 c" by simp
  have h4: "sigio_cb (snd (run mbed_poll (scripted True)
      [Poll_with_wake 0x0011 True [], Wake 0x1000] with_callback)) = Some 7"
    by (simp add: run_snd_Cons registration_sel with_callback_simps)
  have h5: "bit (0x0001 :: short) 0" by simp
  have h6: "\<forall>c\<in>set [Wake 0x0001, Poll_with_wake 0x0010 True []]. \<not> arms (scripted True) 0 c"
    by simp
  have h3': "\<not> wakes 0 (Wake 0x1000 :: (nat, ssize_t list) call)" by simp
  have h6': "\<not> arms (scripted True) 0 (Wake 0x0001 :: (nat, ssize_t list) call)"
    "\<not> arms (scripted True) 0 (Poll_with_wake 0x0010 True [] :: (nat, ssize_t list) call)"
    by simp_all
  show ?thesis
    using single_shot_registration [where pc = mbed_poll, OF h1 h2 h3 refl h4 h5 refl h6 refl]
      h1 h2 h3' h4 h5 h6'
    by blast
qed

text \<open>
  The claim as it is written says that no later wake that contains the bit invokes the
  callback again. Arm the readable bit alone, with the callback 7 registered. The first
  wake on readable calls \<^verbatim>\<open>wake_poll\<close> and invokes the callback. A second wake on
  readable, with nothing armed in between, finds the bit consumed and does not call
  \<^verbatim>\<open>wake_poll\<close>, but it invokes the callback again. And with the readable and the
  writable bit armed together, a second wake that contains the readable bit along with
  the writable one calls \<^verbatim>\<open>wake_poll\<close> again as well.
\<close>

theorem second_wake_invokes_callback_again:
  "bit (0x0001 :: short) 0 \<and>
   invocations (fst (FileHandleDeviceWakeHelper_wake mbed_poll 0x0001
      (snd (run mbed_poll (scripted True) [Poll_with_wake 0x0001 True []] with_callback)))) = [7] \<and>
   wake_polls (fst (FileHandleDeviceWakeHelper_wake mbed_poll 0x0001
      (snd (run mbed_poll (scripted True) [Poll_with_wake 0x0001 True []] with_callback)))) = [0x0001] \<and>
   invocations (fst (FileHandleDeviceWakeHelper_wake mbed_poll 0x0001
      (snd (run mbed_poll (scripted True)
         [Poll_with_wake 0x0001 True [], Wake 0x0001] with_callback)))) = [7] \<and>
   wake_polls (fst (FileHandleDeviceWakeHelper_wake mbed_poll 0x0001
      (snd (run mbed_poll (scripted True)
         [Poll_with_wake 0x0001 True [], Wake 0x0001] with_callback)))) = [] \<and>
   wake_polls (fst (FileHandleDeviceWakeHelper_wake mbed_poll 0x0011
      (snd (run mbed_poll (scripted True)
         [Poll_with_wake 0x0011 True [], Wake 0x0001] with_callback)))) = [0x0011]"
  by (simp add: run_snd_Cons registration_sel with_callback_simps wake_invocations
      wake_wake_polls scripted_poll)

section \<open>The adapter: datagram writes\<close>

lemma calls_rounds: "calls (rounds k @ tr) = k + calls tr"
  by (induction k) simp_all

lemma waits_rounds: "waits (rounds k @ tr) = k + waits tr"
  by (induction k) simp_all

lemma write_datagram_unfold:
  "write_datagram dev wait blk buf d tr =
     (if fst (write_nonblocking dev buf d) = - EAGAIN \<and> blk then
        (case wait Tx (snd (write_nonblocking dev buf d)) of
           None \<Rightarrow> None
         | Some d2 \<Rightarrow> write_datagram dev wait blk buf d2
                       (tr @ [Call_write (fst (write_nonblocking dev buf d)), Wait Tx]))
      else Some (fst (write_nonblocking dev buf d), snd (write_nonblocking dev buf d),
                 tr @ [Call_write (fst (write_nonblocking dev buf d))]))"
  by (subst write_datagram.simps) (simp add: split_beta)

lemma write_datagram_nonblocking:
  "write_datagram dev wait False buf d tr =
     Some (fst (write_nonblocking dev buf d), snd (write_nonblocking dev buf d),
           tr @ [Call_write (fst (write_nonblocking dev buf d))])"
  by (subst write_datagram_unfold) simp

lemma not_ready_rounds_Suc:
  assumes "not_ready_rounds dev wait buf d (Suc k) = Some dk"
  shows "fst (write_nonblocking dev buf d) = - EAGAIN \<and>
         (\<exists>d2. wait Tx (snd (write_nonblocking dev buf d)) = Some d2 \<and>
               not_ready_rounds dev wait buf d2 k = Some dk)"
  using assms by (auto split: if_splits option.splits)

lemma write_datagram_rounds:
  assumes "not_ready_rounds dev wait buf d k = Some dk"
    and "fst (write_nonblocking dev buf dk) \<noteq> - EAGAIN"
  shows "write_datagram dev wait True buf d tr =
           Some (fst (write_nonblocking dev buf dk), snd (write_nonblocking dev buf dk),
                 tr @ rounds k @ [Call_write (fst (write_nonblocking dev buf dk))])"
  using assms
proof (induction k arbitrary: d tr)
  case 0
  then show ?case
    by (subst write_datagram_unfold) simp
next
  case (Suc k)
  from not_ready_rounds_Suc [OF Suc.prems(1)] obtain d2 where
    nr: "fst (write_nonblocking dev buf d) = - EAGAIN" and
    w: "wait Tx (snd (write_nonblocking dev buf d)) = Some d2" and
    r: "not_ready_rounds dev wait buf d2 k = Some dk"
    by blast
  have "write_datagram dev wait True buf d tr =
          write_datagram dev wait True buf d2 (tr @ [Call_write (- EAGAIN), Wait Tx])"
    by (subst write_datagram_unfold) (simp add: nr w)
  also have "\<dots> = Some (fst (write_nonblocking dev buf dk), snd (write_nonblocking dev buf dk),
      (tr @ [Call_write (- EAGAIN), Wait Tx]) @ rounds k @
        [Call_write (fst (write_nonblocking dev buf dk))])"
    by (rule Suc.IH [OF r Suc.prems(2)])
  finally show ?case by simp
qed

lemma write_datagram_no_signal:
  assumes "not_ready_rounds dev wait buf d k = Some dk"
    and "fst (write_nonblocking dev buf dk) = - EAGAIN"
    and "wait Tx (snd (write_nonblocking dev buf dk)) = None"
  shows "write_datagram dev wait True buf d tr = None"
  using assms
proof (induction k arbitrary: d tr)
  case 0
  then show ?case
    by (subst write_datagram_unfold) simp
next
  case (Suc k)
  from not_ready_rounds_Suc [OF Suc.prems(1)] obtain d2 where
    nr: "fst (write_nonblocking dev buf d) = - EAGAIN" and
    w: "wait Tx (snd (write_nonblocking dev buf d)) = Some d2" and
    r: "not_ready_rounds dev wait buf d2 k = Some dk"
    by blast
  have "write_datagram dev wait True buf d tr =
          write_datagram dev wait True buf d2 (tr @ [Call_write (- EAGAIN), Wait Tx])"
    by (subst write_datagram_unfold) (simp add: nr w)
  also have "\<dots> = None"
    by (rule Suc.IH [OF r Suc.prems(2) Suc.prems(3)])
  finally show ?case .
qed

text \<open>
  Claim C2, amended. For a write of at least one byte on a datagram device:
  in non-blocking mode it calls \<^verbatim>\<open>write_nonblocking\<close> exactly once and returns what that
  call reported, be it a count, the sentinel or an error, and leaves the device as that
  call left it. In blocking mode every attempt that reports not-ready is followed by one
  suspension on the transmit wait primitive and, when the caller resumes, by another
  attempt on the device as it then is; after \<open>k\<close> such rounds the first attempt that
  reports something else is the last: the write has called the primitive \<open>k + 1\<close>
  times, has suspended \<open>k\<close> times, and returns what that last call reported and the
  state in which it left the device. If the signal does not come after a not-ready
  attempt, the write does not return. Nothing is summed over the calls. A write of no
  bytes returns 0 and calls nothing.
\<close>

theorem datagram_write_attempts:
  assumes buf: "buf \<noteq> []"
  shows "(\<not> is_stream dev nd \<and> \<not> blocking nst \<longrightarrow>
            FileHandleDeviceWakeHelper_write dev wait nst buf nd =
              Some (fst (write_nonblocking dev buf nd), snd (write_nonblocking dev buf nd),
                    [Call_write (fst (write_nonblocking dev buf nd))])) \<and>
         (\<not> is_stream dev d \<and> blocking st \<and> not_ready_rounds dev wait buf d k = Some dk \<and>
          fst (write_nonblocking dev buf dk) \<noteq> - EAGAIN \<longrightarrow>
            FileHandleDeviceWakeHelper_write dev wait st buf d =
              Some (fst (write_nonblocking dev buf dk), snd (write_nonblocking dev buf dk),
                    rounds k @ [Call_write (fst (write_nonblocking dev buf dk))]) \<and>
            calls (rounds k @ [Call_write (fst (write_nonblocking dev buf dk))]) = Suc k \<and>
            waits (rounds k @ [Call_write (fst (write_nonblocking dev buf dk))]) = k) \<and>
         (\<not> is_stream dev d3 \<and> blocking st \<and> not_ready_rounds dev wait buf d3 k3 = Some dk3 \<and>
          fst (write_nonblocking dev buf dk3) = - EAGAIN \<and>
          wait Tx (snd (write_nonblocking dev buf dk3)) = None \<longrightarrow>
            FileHandleDeviceWakeHelper_write dev wait st buf d3 = None) \<and>
         FileHandleDeviceWakeHelper_write dev wait st [] d = Some (0, d, [])"
proof -
  have a: "FileHandleDeviceWakeHelper_write dev wait nst buf nd =
              Some (fst (write_nonblocking dev buf nd), snd (write_nonblocking dev buf nd),
                    [Call_write (fst (write_nonblocking dev buf nd))])"
    if "\<not> is_stream dev nd" "\<not> blocking nst"
    using that buf
    by (simp add: FileHandleDeviceWakeHelper_write_def write_datagram_nonblocking)
  have b: "FileHandleDeviceWakeHelper_write dev wait st buf d =
              Some (fst (write_nonblocking dev buf dk), snd (write_nonblocking dev buf dk),
                    rounds k @ [Call_write (fst (write_nonblocking dev buf dk))])"
    if "\<not> is_stream dev d" "blocking st" "not_ready_rounds dev wait buf d k = Some dk"
      "fst (write_nonblocking dev buf dk) \<noteq> - EAGAIN"
    using that(1,2) buf write_datagram_rounds [OF that(3,4), of "[]"]
    by (simp add: FileHandleDeviceWakeHelper_write_def)
  have c: "FileHandleDeviceWakeHelper_write dev wait st buf d3 = None"
    if "\<not> is_stream dev d3" "blocking st" "not_ready_rounds dev wait buf d3 k3 = Some dk3"
      "fst (write_nonblocking dev buf dk3) = - EAGAIN"
      "wait Tx (snd (write_nonblocking dev buf dk3)) = None"
    using that(1,2) buf write_datagram_no_signal [OF that(3,4,5), of "[]"]
    by (simp add: FileHandleDeviceWakeHelper_write_def)
  have z: "FileHandleDeviceWakeHelper_write dev wait st [] d = Some (0, d, [])"
    by (simp add: FileHandleDeviceWakeHelper_write_def)
  show ?thesis using a b c z by (simp add: calls_rounds waits_rounds)
qed

lemma scripted_simps:
  "is_stream (scripted stream) d = stream"
  "write_nonblocking (scripted stream) buf [] = (- EAGAIN, [])"
  "write_nonblocking (scripted stream) buf (n # ns) = (n, ns)"
  "read_nonblocking (scripted stream) len [] = (- EAGAIN, [], [])"
  "read_nonblocking (scripted stream) len (n # ns) = (n, replicate (nat n) 0, ns)"
  by (simp_all add: scripted_def)

lemma nonblocking_adapter_blocking: "\<not> blocking nonblocking_adapter"
  by (simp add: nonblocking_adapter_def FileHandleDeviceWakeHelper_set_blocking_def)

lemma init_blocking: "blocking FileHandleDeviceWakeHelper_init"
  by (simp add: FileHandleDeviceWakeHelper_init_def)

lemma two_rounds: "not_ready_rounds (scripted False) resumes_while_scripted [0x41]
    [- EAGAIN, - EAGAIN, 1] 2 = Some [1]"
  by (simp add: numeral_2_eq_2 scripted_simps resumes_while_scripted_def)

theorem datagram_write_attempts_witness:
  "[0x41 :: byte] \<noteq> [] \<and>
   \<not> is_stream (scripted False) [- EAGAIN] \<and> \<not> blocking nonblocking_adapter \<and>
   FileHandleDeviceWakeHelper_write (scripted False) resumes_while_scripted nonblocking_adapter
     [0x41] [- EAGAIN] = Some (- EAGAIN, [], [Call_write (- EAGAIN)]) \<and>
   \<not> is_stream (scripted False) [- EAGAIN, - EAGAIN, 1] \<and>
   blocking (FileHandleDeviceWakeHelper_init :: nat FileHandleDeviceWakeHelper) \<and>
   not_ready_rounds (scripted False) resumes_while_scripted [0x41] [- EAGAIN, - EAGAIN, 1] 2 =
     Some [1] \<and>
   fst (write_nonblocking (scripted False) [0x41] [1]) \<noteq> - EAGAIN \<and>
   FileHandleDeviceWakeHelper_write (scripted False) resumes_while_scripted
     (FileHandleDeviceWakeHelper_init :: nat FileHandleDeviceWakeHelper) [0x41]
     [- EAGAIN, - EAGAIN, 1] =
     Some (1, [], [Call_write (- EAGAIN), Wait Tx, Call_write (- EAGAIN), Wait Tx, Call_write 1]) \<and>
   \<not> is_stream (scripted False) [- EAGAIN] \<and>
   not_ready_rounds (scripted False) resumes_while_scripted [0x41] [- EAGAIN] 0 =
     Some [- EAGAIN] \<and>
   fst (write_nonblocking (scripted False) [0x41] [- EAGAIN]) = - EAGAIN \<and>
   resumes_while_scripted Tx (snd (write_nonblocking (scripted False) [0x41] [- EAGAIN])) = None \<and>
   FileHandleDeviceWakeHelper_write (scripted False) resumes_while_scripted
     (FileHandleDeviceWakeHelper_init :: nat FileHandleDeviceWakeHelper) [0x41] [- EAGAIN] = None"
proof -
  have h: "[0x41 :: byte] \<noteq> []" by simp
  show ?thesis
    using datagram_write_attempts [OF h, of "scripted False" "[- EAGAIN]" nonblocking_adapter
        resumes_while_scripted "[- EAGAIN, - EAGAIN, 1]"
        "FileHandleDeviceWakeHelper_init :: nat FileHandleDeviceWakeHelper" 2 "[1]"
        "[- EAGAIN]" 0 "[- EAGAIN]"]
      two_rounds
    by (simp add: scripted_simps resumes_while_scripted_def EAGAIN_def numeral_2_eq_2
        nonblocking_adapter_blocking init_blocking)
qed

text \<open>
  The claim as it is written has at most one suspension before the one call whose
  result is returned, lets a blocking write return the sentinel, and has a call in
  every write. In blocking mode, on a device that is not ready twice and then accepts
  the byte, the write suspends twice and calls the primitive three times; a write of no
  bytes does not call it.
\<close>

theorem datagram_write_two_suspensions:
  "\<not> is_stream (scripted False) [- EAGAIN, - EAGAIN, 1] \<and>
   blocking (FileHandleDeviceWakeHelper_init :: nat FileHandleDeviceWakeHelper) \<and>
   FileHandleDeviceWakeHelper_write (scripted False) resumes
     (FileHandleDeviceWakeHelper_init :: nat FileHandleDeviceWakeHelper) [0x41]
     [- EAGAIN, - EAGAIN, 1] =
     Some (1, [], [Call_write (- EAGAIN), Wait Tx, Call_write (- EAGAIN), Wait Tx, Call_write 1]) \<and>
   waits [Call_write (- EAGAIN), Wait Tx, Call_write (- EAGAIN), Wait Tx, Call_write 1] = 2 \<and>
   calls [Call_write (- EAGAIN), Wait Tx, Call_write (- EAGAIN), Wait Tx, Call_write 1] = 3 \<and>
   FileHandleDeviceWakeHelper_write (scripted False) resumes
     (FileHandleDeviceWakeHelper_init :: nat FileHandleDeviceWakeHelper) [] [1] =
     Some (0, [1], []) \<and>
   calls [] = 0"
proof -
  have r: "not_ready_rounds (scripted False) resumes [0x41] [- EAGAIN, - EAGAIN, 1] 2 = Some [1]"
    by (simp add: numeral_2_eq_2 scripted_simps resumes_def)
  have n: "fst (write_nonblocking (scripted False) [0x41] [1]) \<noteq> - EAGAIN"
    by (simp add: scripted_simps EAGAIN_def)
  show ?thesis
    using write_datagram_rounds [OF r n, of "[]"]
    by (simp add: FileHandleDeviceWakeHelper_write_def scripted_simps numeral_2_eq_2
        init_blocking)
qed

section \<open>The adapter: non-blocking mode\<close>

lemma waits_append: "waits (tr @ tr') = waits tr + waits tr'"
  by (induction tr rule: waits.induct) simp_all

lemma not_ready_only_last_snoc:
  "\<forall>a\<in>set tr. \<not> not_ready a \<Longrightarrow> not_ready_only_last (tr @ [b])"
  by (induction tr rule: not_ready_only_last.induct) simp_all

lemma not_ready_only_last_ready:
  "\<forall>a\<in>set tr. \<not> not_ready a \<Longrightarrow> not_ready_only_last tr"
  by (induction tr rule: not_ready_only_last.induct) simp_all

lemma read_nonblocking_mode:
  assumes "read_nonblocking dev len d = (r, data, d1)"
  shows "read_attempts dev wait False len d tr = Some (r, data, d1, tr @ [Call_read r])"
  by (subst read_attempts.simps) (simp add: assms)

lemma write_stream_unfold:
  "write_stream dev wait False buf written d tr =
     (if length buf \<le> written then Some (int written, d, tr)
      else if fst (write_nonblocking dev (drop written buf) d) = - EAGAIN then
        Some (if 0 < written then int written else - EAGAIN,
              snd (write_nonblocking dev (drop written buf) d), tr @ [Call_write (- EAGAIN)])
      else if fst (write_nonblocking dev (drop written buf) d) < 0 then
        Some (fst (write_nonblocking dev (drop written buf) d),
              snd (write_nonblocking dev (drop written buf) d),
              tr @ [Call_write (fst (write_nonblocking dev (drop written buf) d))])
      else write_stream dev wait False buf
             (written + nat (fst (write_nonblocking dev (drop written buf) d)))
             (snd (write_nonblocking dev (drop written buf) d))
             (tr @ [Call_write (fst (write_nonblocking dev (drop written buf) d))]))"
  by (subst write_stream.simps) (simp add: split_beta)

lemma write_stream_partial:
  assumes "accepted_calls dev buf written d ns = Some dk"
    and "written + sum_list (map nat ns) < length buf"
    and "fst (write_nonblocking dev (drop (written + sum_list (map nat ns)) buf) dk) = - EAGAIN"
  shows "write_stream dev wait False buf written d tr =
           Some (if written + sum_list (map nat ns) = 0 then - EAGAIN
                 else int (written + sum_list (map nat ns)),
                 snd (write_nonblocking dev (drop (written + sum_list (map nat ns)) buf) dk),
                 tr @ map Call_write ns @ [Call_write (- EAGAIN)])"
  using assms
proof (induction ns arbitrary: written d tr)
  case Nil
  then show ?case
    by (subst write_stream_unfold) simp
next
  case (Cons n ns)
  from Cons.prems(1) have w: "written < length buf" and n0: "0 \<le> n"
    and fn: "fst (write_nonblocking dev (drop written buf) d) = n"
    and rest: "accepted_calls dev buf (written + nat n)
                 (snd (write_nonblocking dev (drop written buf) d)) ns = Some dk"
    by (simp_all split: if_splits)
  have ne: "n \<noteq> - EAGAIN" using n0 by (simp add: EAGAIN_def)
  have sum: "written + sum_list (map nat (n # ns)) = (written + nat n) + sum_list (map nat ns)"
    by simp
  have "write_stream dev wait False buf written d tr =
          write_stream dev wait False buf (written + nat n)
            (snd (write_nonblocking dev (drop written buf) d)) (tr @ [Call_write n])"
    by (subst write_stream_unfold) (use w n0 fn ne in simp)
  also have "\<dots> = Some (if (written + nat n) + sum_list (map nat ns) = 0 then - EAGAIN
                 else int ((written + nat n) + sum_list (map nat ns)),
                 snd (write_nonblocking dev
                   (drop ((written + nat n) + sum_list (map nat ns)) buf) dk),
                 (tr @ [Call_write n]) @ map Call_write ns @ [Call_write (- EAGAIN)])"
    using Cons.prems(2,3) unfolding sum by (intro Cons.IH [OF rest])
  finally show ?case unfolding sum by simp
qed

lemma write_stream_nonblocking_trace:
  assumes "write_stream dev wait blk buf written d tr = Some y"
  shows "\<not> blk \<longrightarrow> waits tr = 0 \<longrightarrow> (\<forall>a\<in>set tr. \<not> not_ready a) \<longrightarrow>
         waits (snd (snd y)) = 0 \<and> not_ready_only_last (snd (snd y))"
  using assms
proof (induction rule: write_stream.raw_induct [rotated 1, consumes 1, case_names body])
  case (body write_stream dev wait blk buf written d tr y)
  show ?case
  proof (intro impI)
    assume nb: "\<not> blk" and w0: "waits tr = 0" and rdy: "\<forall>a\<in>set tr. \<not> not_ready a"
    show "waits (snd (snd y)) = 0 \<and> not_ready_only_last (snd (snd y))"
    proof (cases "length buf \<le> written")
      case True
      then have "y = (int written, d, tr)" using body.hyps by simp
      then show ?thesis using w0 rdy by (simp add: not_ready_only_last_ready)
    next
      case False
      obtain n d1 where nd: "write_nonblocking dev (drop written buf) d = (n, d1)"
        by (cases "write_nonblocking dev (drop written buf) d")
      show ?thesis
      proof (cases "n = - EAGAIN")
        case True
        then have "snd (snd y) = tr @ [Call_write n]"
          using body.hyps False nd nb by (auto split: if_splits)
        then show ?thesis using w0 rdy by (simp add: waits_append not_ready_only_last_snoc)
      next
        case ne: False
        show ?thesis
        proof (cases "n < 0")
          case True
          then have "snd (snd y) = tr @ [Call_write n]"
            using body.hyps False nd ne by (auto split: if_splits)
          then show ?thesis using w0 rdy by (simp add: waits_append not_ready_only_last_snoc)
        next
          case nn: False
          then have rec: "write_stream dev wait blk buf (written + nat n) d1 (tr @ [Call_write n]) = Some y"
            using body.hyps False nd ne by (auto split: if_splits)
          have "waits (tr @ [Call_write n]) = 0" using w0 by (simp add: waits_append)
          moreover have "\<forall>a\<in>set (tr @ [Call_write n]). \<not> not_ready a" using rdy ne by simp
          ultimately show ?thesis using body.IH [OF rec] nb by blast
        qed
      qed
    qed
  qed
qed

text \<open>
  Claim C5, amended. In non-blocking mode a not-ready report of the primitive ends the
  call at once, with no suspension and no further call of the primitive. A read and
  a write whose first attempt is answered not-ready return the sentinel, having called
  the primitive once. A stream write whose calls accepted the byte counts \<open>ns\<close>, fewer
  bytes in all than were asked for, and whose next call is answered not-ready, has
  called the primitive once for each of these, returns the sum of the counts if bytes
  were accepted and the sentinel if none was, and leaves the device as the last call
  left it. No call in non-blocking mode suspends, a read calls the primitive at most
  once, and in a write only the last call can have reported not-ready.
\<close>

theorem nonblocking_not_ready_returns:
  assumes nb: "\<not> blocking st"
  shows
    "(len \<noteq> 0 \<and> fst (read_nonblocking dev len rd) = - EAGAIN \<longrightarrow>
        FileHandleDeviceWakeHelper_read dev wait st len rd =
          Some (- EAGAIN, fst (snd (read_nonblocking dev len rd)),
                snd (snd (read_nonblocking dev len rd)), [Call_read (- EAGAIN)])) \<and>
     (buf \<noteq> [] \<and> fst (write_nonblocking dev buf wd) = - EAGAIN \<longrightarrow>
        FileHandleDeviceWakeHelper_write dev wait st buf wd =
          Some (- EAGAIN, snd (write_nonblocking dev buf wd), [Call_write (- EAGAIN)])) \<and>
     (is_stream dev sd \<and> accepted_calls dev buf 0 sd ns = Some dk \<and>
      sum_list (map nat ns) < length buf \<and>
      fst (write_nonblocking dev (drop (sum_list (map nat ns)) buf) dk) = - EAGAIN \<longrightarrow>
        FileHandleDeviceWakeHelper_write dev wait st buf sd =
          Some (if sum_list (map nat ns) = 0 then - EAGAIN else int (sum_list (map nat ns)),
                snd (write_nonblocking dev (drop (sum_list (map nat ns)) buf) dk),
                map Call_write ns @ [Call_write (- EAGAIN)])) \<and>
     (FileHandleDeviceWakeHelper_write dev wait st buf sd = Some (r, d', tr') \<longrightarrow>
        waits tr' = 0 \<and> not_ready_only_last tr') \<and>
     (FileHandleDeviceWakeHelper_read dev wait st len rd = Some (r2, data2, d2, tr2) \<longrightarrow>
        waits tr2 = 0 \<and> calls tr2 \<le> 1)"
proof -
  have blk: "blocking st = False" using nb by simp
  have rd: "FileHandleDeviceWakeHelper_read dev wait st len rd =
      Some (- EAGAIN, fst (snd (read_nonblocking dev len rd)),
            snd (snd (read_nonblocking dev len rd)), [Call_read (- EAGAIN)])"
    if "len \<noteq> 0" "fst (read_nonblocking dev len rd) = - EAGAIN"
  proof -
    have "read_nonblocking dev len rd = (- EAGAIN, fst (snd (read_nonblocking dev len rd)),
            snd (snd (read_nonblocking dev len rd)))"
      using that(2) by (metis prod.collapse)
    from read_nonblocking_mode [OF this, of wait "[]"] show ?thesis
      using that(1) by (simp add: FileHandleDeviceWakeHelper_read_def blk)
  qed
  have part: "FileHandleDeviceWakeHelper_write dev wait st buf d =
      Some (if sum_list (map nat ms) = 0 then - EAGAIN else int (sum_list (map nat ms)),
            snd (write_nonblocking dev (drop (sum_list (map nat ms)) buf) e),
            map Call_write ms @ [Call_write (- EAGAIN)])"
    if "is_stream dev d" "accepted_calls dev buf 0 d ms = Some e"
      "sum_list (map nat ms) < length buf"
      "fst (write_nonblocking dev (drop (sum_list (map nat ms)) buf) e) = - EAGAIN"
    for d ms e
  proof -
    have "buf \<noteq> []" using that(3) by auto
    then show ?thesis
      using that(1) write_stream_partial [of dev buf 0 d ms e wait "[]"] that(2,3,4)
      by (simp add: FileHandleDeviceWakeHelper_write_def blk)
  qed
  have wr: "FileHandleDeviceWakeHelper_write dev wait st buf wd =
      Some (- EAGAIN, snd (write_nonblocking dev buf wd), [Call_write (- EAGAIN)])"
    if "buf \<noteq> []" "fst (write_nonblocking dev buf wd) = - EAGAIN"
  proof (cases "is_stream dev wd")
    case True
    from part [OF True, of "[]" wd] that show ?thesis by simp
  next
    case False
    then show ?thesis
      using that by (simp add: FileHandleDeviceWakeHelper_write_def blk write_datagram_nonblocking)
  qed
  have wtr: "waits tr' = 0 \<and> not_ready_only_last tr'"
    if w: "FileHandleDeviceWakeHelper_write dev wait st buf sd = Some (r, d', tr')"
  proof (cases "length buf = 0")
    case True
    then show ?thesis using w by (simp add: FileHandleDeviceWakeHelper_write_def)
  next
    case ne: False
    show ?thesis
    proof (cases "is_stream dev sd")
      case True
      then have "write_stream dev wait False buf 0 sd [] = Some (r, d', tr')"
        using w ne by (simp add: FileHandleDeviceWakeHelper_write_def blk)
      from write_stream_nonblocking_trace [OF this] show ?thesis by simp
    next
      case False
      then have "write_datagram dev wait False buf sd [] = Some (r, d', tr')"
        using w ne by (simp add: FileHandleDeviceWakeHelper_write_def blk)
      then show ?thesis by (auto simp: write_datagram_nonblocking)
    qed
  qed
  have rtr: "waits tr2 = 0 \<and> calls tr2 \<le> 1"
    if r: "FileHandleDeviceWakeHelper_read dev wait st len rd = Some (r2, data2, d2, tr2)"
  proof (cases "len = 0")
    case True
    then show ?thesis using r by (simp add: FileHandleDeviceWakeHelper_read_def)
  next
    case False
    obtain r0 data0 d0 where "read_nonblocking dev len rd = (r0, data0, d0)"
      by (cases "read_nonblocking dev len rd")
    from read_nonblocking_mode [OF this, of wait "[]"] show ?thesis
      using r False by (auto simp: FileHandleDeviceWakeHelper_read_def blk)
  qed
  show ?thesis using rd part [of sd ns dk] wr wtr rtr by blast
qed

theorem nonblocking_not_ready_returns_witness:
  "\<not> blocking nonblocking_adapter \<and>
   (4 :: nat) \<noteq> 0 \<and> fst (read_nonblocking (scripted True) 4 []) = - EAGAIN \<and>
   FileHandleDeviceWakeHelper_read (scripted True) resumes nonblocking_adapter 4 [] =
     Some (- EAGAIN, [], [], [Call_read (- EAGAIN)]) \<and>
   [0x41, 0x42 :: byte] \<noteq> [] \<and> fst (write_nonblocking (scripted True) [0x41, 0x42] []) = - EAGAIN \<and>
   FileHandleDeviceWakeHelper_write (scripted True) resumes nonblocking_adapter [0x41, 0x42] [] =
     Some (- EAGAIN, [], [Call_write (- EAGAIN)]) \<and>
   is_stream (scripted True) [1] \<and>
   accepted_calls (scripted True) [0x41, 0x42] 0 [1] [1] = Some [] \<and>
   sum_list (map nat [1]) < length [0x41, 0x42 :: byte] \<and>
   fst (write_nonblocking (scripted True) (drop (sum_list (map nat [1])) [0x41, 0x42]) []) =
     - EAGAIN \<and>
   FileHandleDeviceWakeHelper_write (scripted True) resumes nonblocking_adapter [0x41, 0x42] [1] =
     Some (1, [], [Call_write 1, Call_write (- EAGAIN)]) \<and>
   waits [Call_write 1, Call_write (- EAGAIN)] = 0 \<and>
   not_ready_only_last [Call_write 1, Call_write (- EAGAIN)] \<and>
   waits [Call_read (- EAGAIN)] = 0 \<and> calls [Call_read (- EAGAIN)] \<le> 1"
  using nonblocking_not_ready_returns [OF nonblocking_adapter_blocking,
      of 4 "scripted True" "[]" resumes "[0x41, 0x42]" "[]" "[1]" "[1]" "[]"
         1 "[]" "[Call_write 1, Call_write (- EAGAIN)]"
         "- EAGAIN" "[]" "[]" "[Call_read (- EAGAIN)]"]
  by (simp add: scripted_simps nonblocking_adapter_blocking EAGAIN_def)

text \<open>
  The claim as it is written has every call return the sentinel once the primitive
  reports it. A stream device that accepts one byte and is then not ready reports the
  sentinel to the second call of a two-byte write in non-blocking mode, and the write
  returns 1.
\<close>

theorem nonblocking_stream_write_returns_partial_count:
  "\<not> blocking nonblocking_adapter \<and>
   FileHandleDeviceWakeHelper_write (scripted True) resumes nonblocking_adapter [0x41, 0x42] [1] =
     Some (1, [], [Call_write 1, Call_write (- EAGAIN)]) \<and>
   (1 :: int) \<noteq> - EAGAIN"
proof -
  have "write_stream (scripted True) resumes False [0x41, 0x42] 1 [] [Call_write 1] =
          Some (1, [], [Call_write 1, Call_write (- EAGAIN)])"
    by (subst write_stream.simps) (simp add: scripted_simps)
  then have "write_stream (scripted True) resumes False [0x41, 0x42] 0 [1] [] =
          Some (1, [], [Call_write 1, Call_write (- EAGAIN)])"
    by (subst write_stream.simps) (simp add: scripted_simps EAGAIN_def)
  then show ?thesis
    using nonblocking_adapter_blocking
    by (simp add: FileHandleDeviceWakeHelper_write_def scripted_simps EAGAIN_def)
qed

end
